theory Spec2Isabelle
  imports Complex_Main
begin

section \<open>The task service (src/src/tasks/tasks.service.ts)\<close>

subsection \<open>Records of the store\<close>

text \<open>
  The \<open>files\<close> table holds one row per source file of a repository; its \<open>status\<close>
  column takes the four values the service writes and queries. The schema module is
  not part of the sources at hand, so a row carries the fields the service reads
  (\<open>id\<close>, \<open>repoId\<close>, \<open>path\<close>, \<open>status\<close>) and a table is the list of its rows in the
  store's default order. No uniqueness of \<open>path\<close> across rows is assumed: a path is
  relative to the repository the row belongs to.
\<close>

datatype status = Queued | Processing | Processed | Error

record RepoFile =
  fileId :: nat
  repoId :: nat
  path :: string
  status :: status

record Repo =
  repo_id :: nat
  url :: string

record db =
  files :: "RepoFile list"
  repos :: "Repo list"

text \<open>\<open>db.update(files).set({ status: s }).where(eq(files.path, p))\<close>: every row whose
  path equals \<open>p\<close> gets the new status.\<close>

definition update_status :: "string \<Rightarrow> status \<Rightarrow> RepoFile list \<Rightarrow> RepoFile list" where
  "update_status p s rows = map (\<lambda>f. if path f = p then f\<lparr>status := s\<rparr> else f) rows"

text \<open>\<open>db.query.files.findFirst({ where: eq(files.status, 'queued') })\<close>.\<close>

definition findFirst_queued :: "RepoFile list \<Rightarrow> RepoFile option" where
  "findFirst_queued rows = find (\<lambda>f. status f = Queued) rows"

text \<open>\<open>db.query.repos.findFirst({ where: eq(repos.id, repoId) })\<close>.\<close>

definition findFirst_repo :: "nat \<Rightarrow> Repo list \<Rightarrow> Repo option" where
  "findFirst_repo rid rs = find (\<lambda>r. repo_id r = rid) rs"

subsection \<open>Promises, results and effects\<close>

text \<open>
  An awaited promise either resolves with a value or rejects; a rejection is the
  exception that \<open>await\<close> rethrows. \<open>result\<close> is neverthrow's \<open>Result<void, string>\<close>.
\<close>

datatype 'a promise = Resolved 'a | Rejected string

datatype result = ok | err string

datatype effect =
    LoggerLog string
  | LoggerError string
  | FsCp string string
  | Exec string
  | ReadFile string
  | GenerateSuggestions string string
  | WriteFile string string
  | SubmitPR string string string

text \<open>
  The collaborators of the service (file system, child processes, the repository,
  AI and pull-request services, the UUID source and node's \<open>path.join\<close>) are
  parameters: one outcome per call, as a function of the call's arguments.
  \<open>generateSuggestions\<close> resolves with text or with nothing (\<open>None\<close> stands for
  \<open>undefined\<close> and \<open>null\<close>); \<open>submitPR\<close> resolves with \<open>None\<close> for success and with
  the rendered error otherwise; \<open>getRepoNameFromUrl\<close> gives \<open>None\<close> for an error result.
\<close>

record env =
  getRepoNameFromUrl :: "string \<Rightarrow> string option"
  randomUUID :: string
  path_join :: "string \<Rightarrow> string \<Rightarrow> string"
  fs_cp :: "string \<Rightarrow> string \<Rightarrow> unit promise"
  execAsync :: "string \<Rightarrow> unit promise"
  fs_readFile :: "string \<Rightarrow> string promise"
  generateSuggestions :: "string \<Rightarrow> string \<Rightarrow> string option promise"
  fs_writeFile :: "string \<Rightarrow> string \<Rightarrow> unit promise"
  submitPR :: "string \<Rightarrow> string \<Rightarrow> string \<Rightarrow> string option promise"

text \<open>\<open>await\<close> inside an async function without \<open>try\<close>: the effects so far are kept,
  a rejection ends the function with that rejection.\<close>

definition await :: "effect list \<times> 'a promise \<Rightarrow> ('a \<Rightarrow> effect list \<times> 'b promise)
    \<Rightarrow> effect list \<times> 'b promise" where
  "await m k =
     (case m of
        (es, Rejected x) \<Rightarrow> (es, Rejected x)
      | (es, Resolved a) \<Rightarrow> (case k a of (es', r) \<Rightarrow> (es @ es', r)))"

text \<open>JavaScript's \<open>!response\<close> on \<open>string | undefined | null\<close>: nothing and the empty
  string are falsy.\<close>

definition falsy_response :: "string option \<Rightarrow> bool" where
  "falsy_response response = (case response of None \<Rightarrow> True | Some s \<Rightarrow> s = [])"

text \<open>The text a truthy response carries.\<close>

definition text_of :: "string option \<Rightarrow> string" where
  "text_of response = (case response of None \<Rightarrow> [] | Some s \<Rightarrow> s)"

subsection \<open>The test file path\<close>

text \<open>
  \<open>String.prototype.replace\<close> with a string pattern replaces the first occurrence of
  the pattern, scanning from the left, and returns the string unchanged when there is
  none. The replacement \<open>'.test.ts'\<close> has no \<open>$\<close>, so it is inserted literally.
\<close>

fun replace :: "string \<Rightarrow> string \<Rightarrow> string \<Rightarrow> string" where
  "replace [] pat rep = (if pat = [] then rep else [])"
| "replace (c # cs) pat rep =
     (if take (length pat) (c # cs) = pat then rep @ drop (length pat) (c # cs)
      else c # replace cs pat rep)"

definition testFilePath :: "string \<Rightarrow> string" where
  "testFilePath filePath = replace filePath ''.ts'' ''.test.ts''"

subsection \<open>The pipeline\<close>

text \<open>The local constants of \<open>handleGenerateImprovements\<close>, as functions of what they
  are computed from.\<close>

definition existingPath :: "env \<Rightarrow> string \<Rightarrow> string" where
  "existingPath e repoName = path_join e ''./repos'' repoName"

definition newPath :: "env \<Rightarrow> string \<Rightarrow> string" where
  "newPath e repoName = path_join e ''./repos'' (repoName @ ''-'' @ randomUUID e)"

definition checkoutCommand :: "env \<Rightarrow> string \<Rightarrow> string" where
  "checkoutCommand e repoName =
     ''cd '' @ newPath e repoName @ '' && git checkout -b enhance/tests-'' @ randomUUID e @ '' ''"

definition commitCommand :: "env \<Rightarrow> string \<Rightarrow> string \<Rightarrow> string" where
  "commitCommand e repoName filePath =
     ''cd '' @ newPath e repoName @ '' && git add . && git commit -m ''
       @ [CHR 0x22] @ ''Enhanced test coverage for '' @ filePath @ [CHR 0x22]
       @ '' && git push origin enhance/tests-'' @ randomUUID e"

definition testPath :: "env \<Rightarrow> string \<Rightarrow> string \<Rightarrow> string" where
  "testPath e repoName filePath = path_join e (newPath e repoName) (testFilePath filePath)"

definition sourcePath :: "env \<Rightarrow> string \<Rightarrow> string \<Rightarrow> string" where
  "sourcePath e repoName filePath = path_join e (newPath e repoName) filePath"

definition handleGenerateImprovements :: "env \<Rightarrow> Repo list \<Rightarrow> RepoFile
    \<Rightarrow> effect list \<times> result promise" where
  "handleGenerateImprovements e rs file =
     await ([LoggerLog ''Starting handleGenerateImprovements''], Resolved ()) (\<lambda>_.
     (case findFirst_repo (repoId file) rs of
       None \<Rightarrow> ([], Resolved (err ''Repo not found''))
     | Some repo \<Rightarrow>
        (case getRepoNameFromUrl e (url repo) of
           None \<Rightarrow> ([], Resolved (err ''Repo name not found''))
         | Some repoName \<Rightarrow>
            let filePath = path file in
            await ([FsCp (existingPath e repoName) (newPath e repoName)],
                   fs_cp e (existingPath e repoName) (newPath e repoName)) (\<lambda>_.
            await ([Exec (checkoutCommand e repoName)],
                   execAsync e (checkoutCommand e repoName)) (\<lambda>_.
            await ([ReadFile (testPath e repoName filePath)],
                   fs_readFile e (testPath e repoName filePath)) (\<lambda>testFileContents.
            await ([ReadFile (sourcePath e repoName filePath)],
                   fs_readFile e (sourcePath e repoName filePath)) (\<lambda>fileContents.
            await ([GenerateSuggestions testFileContents fileContents],
                   generateSuggestions e testFileContents fileContents) (\<lambda>response.
            if falsy_response response then ([], Resolved (err ''no response returned''))
            else
              await ([WriteFile (testPath e repoName filePath) (text_of response)],
                     fs_writeFile e (testPath e repoName filePath) (text_of response)) (\<lambda>_.
              await ([Exec (commitCommand e repoName filePath)],
                     execAsync e (commitCommand e repoName filePath)) (\<lambda>_.
              await ([SubmitPR (newPath e repoName) filePath (randomUUID e)],
                     submitPR e (newPath e repoName) filePath (randomUUID e))
                (\<lambda>submitResult.
                  case submitResult of
                    Some reason \<Rightarrow> ([], Resolved (err (''PR submission failed: '' @ reason)))
                  | None \<Rightarrow> ([], Resolved ok))))))))))))"

subsection \<open>The scheduled job\<close>

text \<open>
  One firing of the cron job. \<open>history\<close> lists the contents of the \<open>files\<close> table after
  each update the firing persisted, in order; \<open>completion\<close> is how the job's promise
  settled. The queries and updates of the store themselves are taken to succeed, and
  a firing to run on its own, not overlapping another.
\<close>

record tick =
  selected :: "RepoFile option"
  history :: "RepoFile list list"
  effects :: "effect list"
  completion :: "unit promise"

definition handleGenerateImprovementsCron :: "env \<Rightarrow> db \<Rightarrow> tick" where
  "handleGenerateImprovementsCron e d =
     (case findFirst_queued (files d) of
        None \<Rightarrow>
          \<lparr>selected = None, history = [],
           effects = [LoggerLog ''no files queued for improvements''],
           completion = Resolved ()\<rparr>
      | Some file \<Rightarrow>
          let marked = update_status (path file) Processing (files d) in
          (case handleGenerateImprovements e (repos d) file of
             (es, Rejected x) \<Rightarrow>
               \<lparr>selected = Some file, history = [marked], effects = es,
                completion = Rejected x\<rparr>
           | (es, Resolved (err msg)) \<Rightarrow>
               \<lparr>selected = Some file,
                history = [marked, update_status (path file) Error marked],
                effects = es @ [LoggerError ''Error generating improvements''],
                completion = Resolved ()\<rparr>
           | (es, Resolved ok) \<Rightarrow>
               \<lparr>selected = Some file,
                history = [marked, update_status (path file) Processed marked],
                effects = es, completion = Resolved ()\<rparr>))"

text \<open>The table as persisted once the firing has settled.\<close>

definition files_after :: "db \<Rightarrow> tick \<Rightarrow> RepoFile list" where
  "files_after d t = last (files d # history t)"

text \<open>The persisted status of the row with a given id.\<close>

definition status_of :: "nat \<Rightarrow> RepoFile list \<Rightarrow> status option" where
  "status_of i rows = map_option status (find (\<lambda>f. fileId f = i) rows)"

text \<open>The status changes between two versions of the table, row by row:
  the row's id, its status before and its status after.\<close>

definition transitions :: "RepoFile list \<Rightarrow> RepoFile list \<Rightarrow> (nat \<times> status \<times> status) list" where
  "transitions before after =
     map (\<lambda>(a, b). (fileId a, status a, status b))
       (filter (\<lambda>(a, b). status a \<noteq> status b) (zip before after))"

subsection \<open>A concrete scenario\<close>

text \<open>
  Repository \<open>acme/widgets\<close> with its canonical workspace, every collaborator
  succeeding. \<open>node_join\<close> is what node's \<open>path.join\<close> computes on the segments of
  this scenario (a leading \<open>./\<close> is normalised away, the segments are joined by a
  slash).
\<close>

definition node_join :: "string \<Rightarrow> string \<Rightarrow> string" where
  "node_join a b = (if take 2 a = ''./'' then drop 2 a else a) @ ''/'' @ b"

definition env_ok :: env where
  "env_ok =
     \<lparr>getRepoNameFromUrl =
        (\<lambda>u. if u = ''https://github.com/acme/widgets'' then Some ''widgets''
             else if u = ''https://github.com/acme/gadgets'' then Some ''gadgets''
             else None),
      randomUUID = ''u1'',
      path_join = node_join,
      fs_cp = (\<lambda>_ _. Resolved ()),
      execAsync = (\<lambda>_. Resolved ()),
      fs_readFile = (\<lambda>_. Resolved ''contents''),
      generateSuggestions = (\<lambda>_ _. Resolved (Some ''revised'')),
      fs_writeFile = (\<lambda>_ _. Resolved ()),
      submitPR = (\<lambda>_ _ _. Resolved None)\<rparr>"

text \<open>The same, with the canonical workspace missing: the recursive copy rejects.\<close>

definition env_no_workspace :: env where
  "env_no_workspace = env_ok\<lparr>fs_cp := (\<lambda>_ _. Rejected ''ENOENT'')\<rparr>"

text \<open>The same, with the AI service answering with the empty string.\<close>

definition env_empty_answer :: env where
  "env_empty_answer = env_ok\<lparr>generateSuggestions := (\<lambda>_ _. Resolved (Some []))\<rparr>"

definition widgets :: Repo where
  "widgets = \<lparr>repo_id = 1, url = ''https://github.com/acme/widgets''\<rparr>"

definition gadgets :: Repo where
  "gadgets = \<lparr>repo_id = 2, url = ''https://github.com/acme/gadgets''\<rparr>"

definition db_one_queued :: db where
  "db_one_queued =
     \<lparr>files = [\<lparr>fileId = 1, repoId = 1, path = ''src/foo.ts'', status = Queued\<rparr>],
      repos = [widgets]\<rparr>"

text \<open>Two repositories that each have a file \<open>src/index.ts\<close>.\<close>

definition db_two_queued :: db where
  "db_two_queued =
     \<lparr>files = [\<lparr>fileId = 1, repoId = 1, path = ''src/index.ts'', status = Queued\<rparr>,
               \<lparr>fileId = 2, repoId = 2, path = ''src/index.ts'', status = Queued\<rparr>],
      repos = [widgets, gadgets]\<rparr>"

definition db_processed_and_queued :: db where
  "db_processed_and_queued =
     \<lparr>files = [\<lparr>fileId = 1, repoId = 1, path = ''src/index.ts'', status = Processed\<rparr>,
               \<lparr>fileId = 2, repoId = 1, path = ''src/util.ts'', status = Error\<rparr>,
               \<lparr>fileId = 3, repoId = 2, path = ''src/index.ts'', status = Queued\<rparr>],
      repos = [widgets, gadgets]\<rparr>"

text \<open>A repository whose package directory is named \<open>core.ts\<close>.\<close>

definition db_dotted_directory :: db where
  "db_dotted_directory =
     \<lparr>files = [\<lparr>fileId = 1, repoId = 1, path = ''packages/core.ts/src/index.ts'',
                status = Queued\<rparr>],
      repos = [widgets]\<rparr>"

text \<open>The pattern occurs in the string at a position.\<close>

definition occurs_at :: "string \<Rightarrow> string \<Rightarrow> nat \<Rightarrow> bool" where
  "occurs_at pat s i = (take (length pat) (drop i s) = pat)"


section \<open>The event hub (src/client/app/contexts/SSEContext.tsx)\<close>

subsection \<open>JavaScript values\<close>

text \<open>
  A payload is typed \<open>any\<close>: it is whatever \<open>JSON.parse\<close> returned, or a value built in
  memory. Numbers are IEEE doubles, of which only the classification matters here;
  an object is the list of its own properties (the first binding of a name is the
  property's value); a \<open>Date\<close> instance carries its time value.
\<close>

datatype jsnum = NaN | PosInfinity | NegInfinity | Finite rat

datatype jsval =
    JUndefined
  | JNull
  | JBool bool
  | JNum jsnum
  | JStr string
  | JArr "jsval list"
  | JObj "(string \<times> jsval) list"
  | JDate int

text \<open>The \<open>typeof\<close> operator.\<close>

fun typeof :: "jsval \<Rightarrow> string" where
  "typeof JUndefined = ''undefined''"
| "typeof JNull = ''object''"
| "typeof (JBool _) = ''boolean''"
| "typeof (JNum _) = ''number''"
| "typeof (JStr _) = ''string''"
| "typeof (JArr _) = ''object''"
| "typeof (JObj _) = ''object''"
| "typeof (JDate _) = ''object''"

text \<open>Conversion to boolean: \<open>undefined\<close>, \<open>null\<close>, \<open>false\<close>, \<open>0\<close>, \<open>NaN\<close> and the empty
  string are falsy, everything else is truthy.\<close>

fun truthy :: "jsval \<Rightarrow> bool" where
  "truthy JUndefined = False"
| "truthy JNull = False"
| "truthy (JBool b) = b"
| "truthy (JNum NaN) = False"
| "truthy (JNum (Finite r)) = (r \<noteq> 0)"
| "truthy (JNum _) = True"
| "truthy (JStr s) = (s \<noteq> [])"
| "truthy (JArr _) = True"
| "truthy (JObj _) = True"
| "truthy (JDate _) = True"

text \<open>
  Reading a property, for the names this module reads (\<open>taskId\<close>, \<open>repoId\<close>,
  \<open>filePath\<close>, \<open>repoName\<close>, \<open>eventType\<close>, \<open>message\<close>, \<open>timestamp\<close>, \<open>metadata\<close>, \<open>error\<close>):
  none of them is defined by a built-in prototype, so only a plain object can have
  one. Reading a property of \<open>undefined\<close> or \<open>null\<close> throws a \<open>TypeError\<close>, which is
  \<open>None\<close>.
\<close>

fun property :: "jsval \<Rightarrow> string \<Rightarrow> jsval option" where
  "property JUndefined name = None"
| "property JNull name = None"
| "property (JObj kvs) name = Some (case map_of kvs name of None \<Rightarrow> JUndefined | Some v \<Rightarrow> v)"
| "property _ name = Some JUndefined"

text \<open>Optional chaining \<open>r?.name\<close> on the result \<open>r\<close> of an earlier read.\<close>

definition opt_chain :: "jsval option \<Rightarrow> string \<Rightarrow> jsval option" where
  "opt_chain r name =
     (case r of
        None \<Rightarrow> None
      | Some v \<Rightarrow> if v = JUndefined \<or> v = JNull then Some JUndefined else property v name)"

text \<open>\<open>a && b\<close>: the value of \<open>a\<close> when it is falsy, without evaluating \<open>b\<close>; the value of
  \<open>b\<close> otherwise. An operand that throws is \<open>None\<close>.\<close>

definition js_and :: "jsval option \<Rightarrow> jsval option \<Rightarrow> jsval option" where
  "js_and a b = (case a of None \<Rightarrow> None | Some v \<Rightarrow> if truthy v then b else Some v)"

text \<open>\<open>typeof r === t\<close>, \<open>r === 'text'\<close> and \<open>r !== undefined\<close>.\<close>

definition typeof_is :: "jsval option \<Rightarrow> string \<Rightarrow> jsval option" where
  "typeof_is r t = map_option (\<lambda>v. JBool (typeof v = t)) r"

definition strict_eq_str :: "jsval option \<Rightarrow> string \<Rightarrow> jsval option" where
  "strict_eq_str r s = map_option (\<lambda>v. JBool (v = JStr s)) r"

definition not_undefined :: "jsval option \<Rightarrow> jsval option" where
  "not_undefined r = map_option (\<lambda>v. JBool (v \<noteq> JUndefined)) r"

text \<open>A guard holds when it returns a truthy value.\<close>

definition holds :: "jsval option \<Rightarrow> bool" where
  "holds r = (case r of None \<Rightarrow> False | Some v \<Rightarrow> truthy v)"

subsection \<open>The type guards\<close>

definition isTaskProgressEvent :: "jsval \<Rightarrow> jsval option" where
  "isTaskProgressEvent data =
     js_and (js_and (js_and (js_and (js_and (js_and
       (Some data)
       (typeof_is (property data ''taskId'') ''string''))
       (typeof_is (property data ''repoId'') ''string''))
       (typeof_is (property data ''filePath'') ''string''))
       (typeof_is (property data ''repoName'') ''string''))
       (not_undefined (property data ''eventType'')))
       (typeof_is (property data ''message'') ''string'')"

definition isTaskStartedEvent :: "jsval \<Rightarrow> jsval option" where
  "isTaskStartedEvent data =
     js_and (js_and (js_and (js_and
       (Some data)
       (typeof_is (property data ''taskId'') ''string''))
       (typeof_is (property data ''repoId'') ''string''))
       (typeof_is (property data ''filePath'') ''string''))
       (typeof_is (property data ''repoName'') ''string'')"

text \<open>\<open>TaskEventType.COMPLETE\<close> is \<open>'complete'\<close>, \<open>TaskEventType.ERROR\<close> is \<open>'error'\<close>.\<close>

definition isTaskCompletedEvent :: "jsval \<Rightarrow> jsval option" where
  "isTaskCompletedEvent data =
     js_and (isTaskProgressEvent data) (strict_eq_str (property data ''eventType'') ''complete'')"

definition isTaskErrorEvent :: "jsval \<Rightarrow> jsval option" where
  "isTaskErrorEvent data =
     js_and (js_and
       (isTaskProgressEvent data)
       (strict_eq_str (property data ''eventType'') ''error''))
       (not_undefined (opt_chain (property data ''metadata'') ''error''))"

definition isHeartbeatEvent :: "jsval \<Rightarrow> jsval option" where
  "isHeartbeatEvent data = js_and (Some data) (property data ''timestamp'')"

subsection \<open>Payloads as the interfaces declare them\<close>

text \<open>
  The interfaces \<open>TaskProgressEvent\<close>, \<open>TaskStartedEvent\<close>, \<open>TaskCompletedEvent\<close>,
  \<open>TaskErrorEvent\<close> and \<open>HeartbeatEvent\<close>, read as predicates on values: a required
  field is present with its declared type, an optional field is absent or has its
  declared type. A \<open>Date\<close> is a \<open>Date\<close> instance or, once it has crossed the wire, the
  non-empty text \<open>JSON.stringify\<close> made of it.
\<close>

definition field :: "(string \<times> jsval) list \<Rightarrow> string \<Rightarrow> jsval" where
  "field kvs name = (case map_of kvs name of None \<Rightarrow> JUndefined | Some v \<Rightarrow> v)"

fun is_string :: "jsval \<Rightarrow> bool" where
  "is_string (JStr _) = True"
| "is_string _ = False"

fun is_Date :: "jsval \<Rightarrow> bool" where
  "is_Date (JDate _) = True"
| "is_Date (JStr s) = (s \<noteq> [])"
| "is_Date _ = False"

definition TaskEventType :: "string list" where
  "TaskEventType = [''setup-repo'', ''generate-suggestions'', ''create-pr'', ''complete'', ''error'']"

fun is_TaskEventType :: "jsval \<Rightarrow> bool" where
  "is_TaskEventType (JStr s) = (s \<in> set TaskEventType)"
| "is_TaskEventType _ = False"

definition optional :: "(jsval \<Rightarrow> bool) \<Rightarrow> jsval \<Rightarrow> bool" where
  "optional P v = (if v = JUndefined then True else P v)"

fun is_metadata :: "jsval \<Rightarrow> bool" where
  "is_metadata (JObj kvs) =
     (optional is_string (field kvs ''prUrl'') \<and> optional is_string (field kvs ''error''))"
| "is_metadata _ = False"

fun is_error_metadata :: "jsval \<Rightarrow> bool" where
  "is_error_metadata (JObj kvs) = is_string (field kvs ''error'')"
| "is_error_metadata _ = False"

fun wf_TaskProgressEvent :: "jsval \<Rightarrow> bool" where
  "wf_TaskProgressEvent (JObj kvs) =
     (is_string (field kvs ''taskId'') \<and> is_string (field kvs ''repoId'') \<and>
      is_string (field kvs ''filePath'') \<and> is_string (field kvs ''repoName'') \<and>
      is_TaskEventType (field kvs ''eventType'') \<and> is_string (field kvs ''message'') \<and>
      is_Date (field kvs ''timestamp'') \<and> optional is_metadata (field kvs ''metadata''))"
| "wf_TaskProgressEvent _ = False"

fun wf_TaskStartedEvent :: "jsval \<Rightarrow> bool" where
  "wf_TaskStartedEvent (JObj kvs) =
     (is_string (field kvs ''taskId'') \<and> is_string (field kvs ''repoId'') \<and>
      is_string (field kvs ''filePath'') \<and> is_string (field kvs ''repoName'') \<and>
      is_Date (field kvs ''timestamp''))"
| "wf_TaskStartedEvent _ = False"

definition wf_TaskCompletedEvent :: "jsval \<Rightarrow> bool" where
  "wf_TaskCompletedEvent v =
     (wf_TaskProgressEvent v \<and> property v ''eventType'' = Some (JStr ''complete''))"

definition wf_TaskErrorEvent :: "jsval \<Rightarrow> bool" where
  "wf_TaskErrorEvent v =
     (wf_TaskProgressEvent v \<and> property v ''eventType'' = Some (JStr ''error'') \<and>
      (case property v ''metadata'' of None \<Rightarrow> False | Some m \<Rightarrow> is_error_metadata m))"

fun wf_HeartbeatEvent :: "jsval \<Rightarrow> bool" where
  "wf_HeartbeatEvent (JObj kvs) = is_Date (field kvs ''timestamp'')"
| "wf_HeartbeatEvent _ = False"

subsection \<open>The provider's state\<close>

datatype SSEEventType = task_progress | task_started | task_completed | task_error | heartbeat

record SSEEvent =
  type :: SSEEventType
  data :: jsval

text \<open>
  A listener is a callback, known to the hub by its identity only. An
  \<open>EventSource\<close> is known by a serial number, a pending timer by its delay in
  milliseconds. \<open>listenersRef\<close> is a \<open>Map\<close> from event type to a \<open>Set\<close> of listeners; a
  \<open>Set\<close> keeps its members in insertion order, without repetition.
\<close>

type_synonym EventListener = nat

record hub =
  isConnected :: bool
  lastEvent :: "SSEEvent option"
  connectionError :: "string option"
  eventSourceRef :: "nat option"
  listenersRef :: "SSEEventType \<Rightarrow> EventListener list option"
  reconnectTimeoutRef :: "nat option"
  reconnectAttemptsRef :: nat

text \<open>What a handler does to the world outside the state, in order.\<close>

datatype action =
    Invoke EventListener SSEEvent
  | ConsoleLog string
  | ConsoleError string
  | CloseSource nat
  | NewSource
  | SetTimeout nat
  | Uncaught string

text \<open>A call either returns or throws.\<close>

datatype 'a completion = Normal 'a | Throw string

text \<open>
  What the registered callbacks do when called is a parameter. A callback is taken
  to leave the hub's registry alone while an event is being delivered.
\<close>

type_synonym behaviour = "EventListener \<Rightarrow> SSEEvent \<Rightarrow> unit completion"

subsection \<open>Delivery to listeners\<close>

text \<open>\<open>try { body } catch (error) { handler }\<close> around a call that logs actions.\<close>

definition try_catch :: "action list \<times> unit completion \<Rightarrow> (string \<Rightarrow> action list \<times> unit completion)
    \<Rightarrow> action list \<times> unit completion" where
  "try_catch body handler =
     (case body of
        (acts, Normal u) \<Rightarrow> (acts, Normal u)
      | (acts, Throw x) \<Rightarrow> (case handler x of (acts', c) \<Rightarrow> (acts @ acts', c)))"

text \<open>\<open>Set.prototype.forEach\<close>: the members in insertion order; a callback that throws
  ends the iteration with that exception.\<close>

fun forEach :: "('a \<Rightarrow> action list \<times> unit completion) \<Rightarrow> 'a list
    \<Rightarrow> action list \<times> unit completion" where
  "forEach f [] = ([], Normal ())"
| "forEach f (x # xs) =
     (case f x of
        (acts, Throw e) \<Rightarrow> (acts, Throw e)
      | (acts, Normal _) \<Rightarrow> (case forEach f xs of (acts', c) \<Rightarrow> (acts @ acts', c)))"

definition call_listener :: "behaviour \<Rightarrow> EventListener \<Rightarrow> SSEEvent \<Rightarrow> action list \<times> unit completion" where
  "call_listener beh listener event = ([Invoke listener event], beh listener event)"

definition notifyListeners :: "behaviour \<Rightarrow> SSEEvent \<Rightarrow> hub \<Rightarrow> action list \<times> unit completion" where
  "notifyListeners beh event st =
     (case listenersRef st (type event) of
        None \<Rightarrow> ([], Normal ())
      | Some listeners \<Rightarrow>
          forEach (\<lambda>listener.
            try_catch (call_listener beh listener event)
              (\<lambda>error. ([ConsoleError ''Error in event listener''], Normal ())))
            listeners)"

subsection \<open>The registry\<close>

definition set_add :: "'a \<Rightarrow> 'a list \<Rightarrow> 'a list" where
  "set_add x xs = (if x \<in> set xs then xs else xs @ [x])"

definition addEventListener :: "SSEEventType \<Rightarrow> EventListener \<Rightarrow> hub \<Rightarrow> hub" where
  "addEventListener t listener st =
     (let listeners = (case listenersRef st t of None \<Rightarrow> [] | Some ls \<Rightarrow> ls)
      in st\<lparr>listenersRef := (listenersRef st)(t \<mapsto> set_add listener listeners)\<rparr>)"

definition removeEventListener :: "SSEEventType \<Rightarrow> EventListener \<Rightarrow> hub \<Rightarrow> hub" where
  "removeEventListener t listener st =
     (case listenersRef st t of
        None \<Rightarrow> st
      | Some listeners \<Rightarrow>
          let listeners' = removeAll listener listeners in
          if length listeners' = 0 then st\<lparr>listenersRef := (listenersRef st)(t := None)\<rparr>
          else st\<lparr>listenersRef := (listenersRef st)(t \<mapsto> listeners')\<rparr>)"

subsection \<open>The connection and its handlers\<close>

text \<open>
  \<open>connect\<close> closes the current source, if any, and makes a new one; the argument is
  what \<open>new EventSource(sseUrl)\<close> gave: the new source, or \<open>None\<close> when the
  constructor threw.
\<close>

definition connect :: "nat option \<Rightarrow> hub \<Rightarrow> hub \<times> action list" where
  "connect made st =
     (let closing = (case eventSourceRef st of None \<Rightarrow> [] | Some es \<Rightarrow> [CloseSource es]) in
      case made of
        Some eventSource \<Rightarrow> (st\<lparr>eventSourceRef := Some eventSource\<rparr>, closing @ [NewSource])
      | None \<Rightarrow>
          (st\<lparr>connectionError := Some ''Error creating EventSource''\<rparr>,
           closing @ [NewSource, ConsoleError ''Error creating EventSource'']))"

definition onopen :: "hub \<Rightarrow> hub \<times> action list" where
  "onopen st =
     (st\<lparr>isConnected := True, connectionError := None, reconnectAttemptsRef := 0\<rparr>,
      [ConsoleLog ''SSE connection established''])"

text \<open>
  \<open>Math.min(1000 * Math.pow(2, attempts), 30000)\<close>. The counter is a whole number and
  a power of two is exact in a double until it overflows to \<open>Infinity\<close>, whose minimum
  with \<open>30000\<close> is \<open>30000\<close>: on whole numbers the result is the one computed here.
\<close>

definition backoffDelay :: "nat \<Rightarrow> nat" where
  "backoffDelay attempts = min (1000 * 2 ^ attempts) 30000"

definition onerror :: "hub \<Rightarrow> hub \<times> action list" where
  "onerror st =
     (let delay = backoffDelay (reconnectAttemptsRef st) in
      (st\<lparr>isConnected := False, connectionError := Some ''SSE connection failed'',
          reconnectAttemptsRef := reconnectAttemptsRef st + 1,
          reconnectTimeoutRef := Some delay\<rparr>,
       [ConsoleError ''SSE connection error:'', ConsoleLog ''Attempting to reconnect'',
        SetTimeout delay]))"

text \<open>
  The handler attached for each of the five event types. \<open>parse\<close> is \<open>JSON.parse\<close>,
  \<open>None\<close> when it throws. The whole body is inside one \<open>try\<close>, whose \<open>catch\<close> logs.
\<close>

definition on_message :: "(string \<Rightarrow> jsval option) \<Rightarrow> behaviour \<Rightarrow> SSEEventType \<Rightarrow> string \<Rightarrow> hub
    \<Rightarrow> hub \<times> action list \<times> unit completion" where
  "on_message parse beh eventType raw st =
     (case parse raw of
        None \<Rightarrow> (st, [ConsoleError ''Error parsing SSE event''], Normal ())
      | Some d \<Rightarrow>
          let sseEvent = \<lparr>type = eventType, data = d\<rparr>;
              st' = st\<lparr>lastEvent := Some sseEvent\<rparr>
          in (case notifyListeners beh sseEvent st' of
                (acts, Normal _) \<Rightarrow> (st', acts, Normal ())
              | (acts, Throw x) \<Rightarrow>
                  (st', acts @ [ConsoleError ''Error parsing SSE event''], Normal ())))"

subsection \<open>The hub as a machine\<close>

text \<open>What can happen to a mounted provider: the source opens, the source fails, the
  reconnection timer fires (and \<open>connect\<close> runs), a named event arrives.\<close>

datatype happening =
    Open
  | TransportError
  | TimerFired "nat option"
  | Message SSEEventType string

fun step :: "(string \<Rightarrow> jsval option) \<Rightarrow> behaviour \<Rightarrow> happening \<Rightarrow> hub \<Rightarrow> hub \<times> action list" where
  "step parse beh Open st = onopen st"
| "step parse beh TransportError st = onerror st"
| "step parse beh (TimerFired made) st = connect made st"
| "step parse beh (Message eventType raw) st =
     (case on_message parse beh eventType raw st of
        (st', acts, Normal _) \<Rightarrow> (st', acts)
      | (st', acts, Throw x) \<Rightarrow> (st', acts @ [Uncaught x]))"

fun run :: "(string \<Rightarrow> jsval option) \<Rightarrow> behaviour \<Rightarrow> happening list \<Rightarrow> hub \<Rightarrow> hub \<times> action list" where
  "run parse beh [] st = (st, [])"
| "run parse beh (h # hs) st =
     (case step parse beh h st of
        (st', acts) \<Rightarrow> (case run parse beh hs st' of (st'', acts') \<Rightarrow> (st'', acts @ acts')))"

text \<open>The delays of the timers set, and the calls made to listeners, in order.\<close>

fun delays :: "action list \<Rightarrow> nat list" where
  "delays [] = []"
| "delays (SetTimeout d # as) = d # delays as"
| "delays (_ # as) = delays as"

fun invocations :: "action list \<Rightarrow> (EventListener \<times> SSEEvent) list" where
  "invocations [] = []"
| "invocations (Invoke l e # as) = (l, e) # invocations as"
| "invocations (_ # as) = invocations as"

text \<open>One failed attempt: the source fails, then the timer fires and \<open>connect\<close> makes
  another source.\<close>

definition failed_attempt :: "nat \<Rightarrow> happening list" where
  "failed_attempt eventSource = [TransportError, TimerFired (Some eventSource)]"

subsection \<open>A concrete hub\<close>

text \<open>The state the provider starts in, connected to source 0.\<close>

definition hub_initial :: hub where
  "hub_initial =
     \<lparr>isConnected = False, lastEvent = None, connectionError = None,
      eventSourceRef = Some 0, listenersRef = (\<lambda>_. None),
      reconnectTimeoutRef = None, reconnectAttemptsRef = 0\<rparr>"

text \<open>Listeners 1, 2 and 3 on \<open>task-progress\<close> and listener 4 on \<open>heartbeat\<close>;
  listener 2 throws whenever it is called.\<close>

definition hub_subscribed :: hub where
  "hub_subscribed =
     addEventListener heartbeat 4
       (addEventListener task_progress 3
         (addEventListener task_progress 2
           (addEventListener task_progress 1 hub_initial)))"

definition second_throws :: behaviour where
  "second_throws listener event = (if listener = 2 then Throw ''boom'' else Normal ())"

text \<open>\<open>JSON.parse\<close> on the texts of this scenario: an empty object, \<open>null\<close>, and
  text that is not JSON.\<close>

definition parse_sample :: "string \<Rightarrow> jsval option" where
  "parse_sample raw =
     (if raw = ''{}'' then Some (JObj [])
      else if raw = ''null'' then Some JNull
      else None)"

text \<open>The listeners registered for an event type, in the order \<open>forEach\<close> visits them.\<close>

definition listeners_of :: "hub \<Rightarrow> SSEEventType \<Rightarrow> EventListener list" where
  "listeners_of st t = (case listenersRef st t of None \<Rightarrow> [] | Some ls \<Rightarrow> ls)"

subsection \<open>What the guards check, and sample payloads\<close>

text \<open>The shape a progress payload is checked for: a plain object whose four
  identifying fields and message are strings and whose event type is present.\<close>

fun progress_shape :: "jsval \<Rightarrow> bool" where
  "progress_shape (JObj kvs) =
     (is_string (field kvs ''taskId'') \<and> is_string (field kvs ''repoId'') \<and>
      is_string (field kvs ''filePath'') \<and> is_string (field kvs ''repoName'') \<and>
      field kvs ''eventType'' \<noteq> JUndefined \<and> is_string (field kvs ''message''))"
| "progress_shape _ = False"

text \<open>The value of \<open>metadata.error\<close> of a payload, \<open>undefined\<close> when the payload has no
  metadata object or the object has no such property.\<close>

fun metadata_error :: "jsval \<Rightarrow> jsval" where
  "metadata_error (JObj kvs) =
     (case field kvs ''metadata'' of JObj m \<Rightarrow> field m ''error'' | _ \<Rightarrow> JUndefined)"
| "metadata_error _ = JUndefined"

definition progress_payload :: jsval where
  "progress_payload = JObj
     [(''taskId'', JStr ''t1''), (''repoId'', JStr ''r1''), (''filePath'', JStr ''src/foo.ts''),
      (''repoName'', JStr ''widgets''), (''eventType'', JStr ''setup-repo''),
      (''message'', JStr ''Setting up''), (''timestamp'', JStr ''2025-01-01T00:00:00.000Z'')]"

definition started_payload :: jsval where
  "started_payload = JObj
     [(''taskId'', JStr ''t1''), (''repoId'', JStr ''r1''), (''filePath'', JStr ''src/foo.ts''),
      (''repoName'', JStr ''widgets''), (''timestamp'', JStr ''2025-01-01T00:00:00.000Z'')]"

definition completed_payload :: jsval where
  "completed_payload = JObj
     [(''taskId'', JStr ''t1''), (''repoId'', JStr ''r1''), (''filePath'', JStr ''src/foo.ts''),
      (''repoName'', JStr ''widgets''), (''eventType'', JStr ''complete''),
      (''message'', JStr ''Done''), (''timestamp'', JStr ''2025-01-01T00:00:00.000Z''),
      (''metadata'', JObj [(''prUrl'', JStr ''https://github.com/acme/widgets/pull/1'')])]"

definition error_payload :: jsval where
  "error_payload = JObj
     [(''taskId'', JStr ''t1''), (''repoId'', JStr ''r1''), (''filePath'', JStr ''src/foo.ts''),
      (''repoName'', JStr ''widgets''), (''eventType'', JStr ''error''),
      (''message'', JStr ''Failed''), (''timestamp'', JStr ''2025-01-01T00:00:00.000Z''),
      (''metadata'', JObj [(''error'', JStr ''no response returned'')])]"

definition heartbeat_payload :: jsval where
  "heartbeat_payload = JObj [(''timestamp'', JDate 1735689600000)]"

text \<open>A payload that has the checked shape without being a progress payload: its event
  type is a number and it has no timestamp.\<close>

definition malformed_payload :: jsval where
  "malformed_payload = JObj
     [(''taskId'', JStr ''t1''), (''repoId'', JStr ''r1''), (''filePath'', JStr ''src/foo.ts''),
      (''repoName'', JStr ''widgets''), (''eventType'', JNum (Finite 7)),
      (''message'', JStr '''')]"

text \<open>A payload with event type \<open>'complete'\<close> and no timestamp, and an error payload
  whose \<open>metadata.error\<close> is \<open>null\<close>.\<close>

definition complete_without_timestamp :: jsval where
  "complete_without_timestamp = JObj
     [(''taskId'', JStr ''t1''), (''repoId'', JStr ''r1''), (''filePath'', JStr ''src/foo.ts''),
      (''repoName'', JStr ''widgets''), (''eventType'', JStr ''complete''),
      (''message'', JStr ''Done'')]"

definition error_null_payload :: jsval where
  "error_null_payload = JObj
     [(''taskId'', JStr ''t1''), (''repoId'', JStr ''r1''), (''filePath'', JStr ''src/foo.ts''),
      (''repoName'', JStr ''widgets''), (''eventType'', JStr ''error''),
      (''message'', JStr ''Failed''), (''timestamp'', JStr ''2025-01-01T00:00:00.000Z''),
      (''metadata'', JObj [(''error'', JNull)])]"

section \<open>Properties of the task service\<close>

lemmas scenario_defs = env_ok_def env_no_workspace_def env_empty_answer_def widgets_def
  gadgets_def db_one_queued_def db_two_queued_def db_processed_and_queued_def
  db_dotted_directory_def node_join_def

lemmas pipeline_defs = handleGenerateImprovementsCron_def handleGenerateImprovements_def
  await_def findFirst_queued_def findFirst_repo_def update_status_def existingPath_def
  newPath_def checkoutCommand_def commitCommand_def testPath_def sourcePath_def
  falsy_response_def text_of_def files_after_def Let_def

subsection \<open>Updates of the table\<close>

lemma find_in_set: "find P xs = Some x \<Longrightarrow> x \<in> set xs \<and> P x"
  by (induction xs) (auto split: if_splits)

lemma update_status_selected:
  "f \<in> set rows \<Longrightarrow> f\<lparr>status := s\<rparr> \<in> set (update_status (path f) s rows)"
  by (force simp: update_status_def)

lemma update_status_path:
  assumes "r \<in> set (update_status p s rows)" and "path r = p"
  shows "status r = s"
proof -
  from assms(1) obtain f where f: "f \<in> set rows"
    and r: "r = (if path f = p then f\<lparr>status := s\<rparr> else f)"
    by (auto simp: update_status_def)
  show ?thesis
  proof (cases "path f = p")
    case True
    with r show ?thesis by simp
  next
    case False
    with r assms(2) show ?thesis by simp
  qed
qed

lemma update_status_twice:
  "update_status p s (update_status p s' rows) = update_status p s rows"
  by (induction rows) (auto simp: update_status_def)

lemma update_status_paths: "map path (update_status p s rows) = map path rows"
  by (induction rows) (auto simp: update_status_def)

lemma update_status_no_match:
  "\<forall>x \<in> set rows. path x \<noteq> p \<Longrightarrow> update_status p s rows = rows"
  by (simp add: update_status_def map_idI)

lemma transitions_same: "transitions rows rows = []"
  by (induction rows) (simp_all add: transitions_def)

text \<open>Where paths are unique in the table, an update by path changes the one row it
  was meant for.\<close>

lemma transitions_update:
  assumes "distinct (map path rows)" and "f \<in> set rows" and "status f \<noteq> s"
  shows "transitions rows (update_status (path f) s rows) = [(fileId f, status f, s)]"
  using assms
proof (induction rows)
  case Nil
  then show ?case by simp
next
  case (Cons r rows)
  from Cons.prems(1) have fresh: "path r \<notin> path ` set rows" by simp
  show ?case
  proof (cases "f = r")
    case True
    from fresh have "\<forall>x \<in> set rows. path x \<noteq> path r" by (metis image_eqI)
    then have "update_status (path r) s rows = rows" by (rule update_status_no_match)
    with True Cons.prems(3) show ?thesis
      using transitions_same[of rows] by (simp add: transitions_def update_status_def)
  next
    case False
    with Cons.prems(2) have f: "f \<in> set rows" by simp
    with fresh have "path r \<noteq> path f" by (metis image_eqI)
    moreover from Cons.IH f Cons.prems(1,3)
    have "transitions rows (update_status (path f) s rows) = [(fileId f, status f, s)]" by simp
    ultimately show ?thesis by (simp add: transitions_def update_status_def)
  qed
qed

subsection \<open>One firing of the job\<close>

lemma cron_none_queued:
  assumes "findFirst_queued (files d) = None"
  shows "history (handleGenerateImprovementsCron e d) = [] \<and>
         files_after d (handleGenerateImprovementsCron e d) = files d"
  using assms by (simp add: handleGenerateImprovementsCron_def files_after_def)

lemma cron_resolved_ok:
  assumes "findFirst_queued (files d) = Some file"
    and "handleGenerateImprovements e (repos d) file = (es, Resolved ok)"
  shows "files_after d (handleGenerateImprovementsCron e d)
           = update_status (path file) Processed (files d)"
  using assms
  by (simp add: handleGenerateImprovementsCron_def files_after_def update_status_twice)

lemma cron_resolved_err:
  assumes "findFirst_queued (files d) = Some file"
    and "handleGenerateImprovements e (repos d) file = (es, Resolved (err msg))"
  shows "files_after d (handleGenerateImprovementsCron e d)
           = update_status (path file) Error (files d)"
  using assms
  by (simp add: handleGenerateImprovementsCron_def files_after_def update_status_twice)

lemma cron_rejected:
  assumes "findFirst_queued (files d) = Some file"
    and "handleGenerateImprovements e (repos d) file = (es, Rejected x)"
  shows "files_after d (handleGenerateImprovementsCron e d)
           = update_status (path file) Processing (files d) \<and>
         completion (handleGenerateImprovementsCron e d) = Rejected x"
  using assms by (simp add: handleGenerateImprovementsCron_def files_after_def)

text \<open>
  Claim C1. After a firing that selected a row, the row is persisted as \<open>processed\<close>
  when the pipeline succeeded and as \<open>error\<close> when it failed for any reason, I/O
  failures included. The job does so for failures returned as an error result
  (\<open>cron_resolved_err\<close>), not for failures thrown: with the canonical workspace of
  the repository missing, the recursive copy rejects, the job's promise rejects with
  it, and the selected row stays \<open>processing\<close>.
\<close>

theorem cron_copy_rejected_leaves_processing:
  "findFirst_queued (files db_one_queued)
     = Some \<lparr>fileId = 1, repoId = 1, path = ''src/foo.ts'', status = Queued\<rparr> \<and>
   completion (handleGenerateImprovementsCron env_no_workspace db_one_queued)
     = Rejected ''ENOENT'' \<and>
   files_after db_one_queued (handleGenerateImprovementsCron env_no_workspace db_one_queued)
     = [\<lparr>fileId = 1, repoId = 1, path = ''src/foo.ts'', status = Processing\<rparr>]"
  by (simp add: scenario_defs pipeline_defs)

subsection \<open>The path of the test file\<close>

lemma replace_suffix:
  "\<forall>i<length base. \<not> occurs_at pat (base @ pat) i \<Longrightarrow> pat \<noteq> [] \<Longrightarrow>
   replace (base @ pat) pat rep = base @ rep"
proof (induction base)
  case Nil
  then show ?case by (cases pat) simp_all
next
  case (Cons c base)
  from Cons.prems(1) have "\<not> occurs_at pat ((c # base) @ pat) 0" by simp
  then have head: "take (length pat) ((c # base) @ pat) \<noteq> pat"
    by (simp add: occurs_at_def)
  have "\<forall>i<length base. \<not> occurs_at pat (base @ pat) i"
  proof (intro allI impI)
    fix i assume "i < length base"
    then have "Suc i < length (c # base)" by simp
    with Cons.prems(1) have "\<not> occurs_at pat ((c # base) @ pat) (Suc i)" by blast
    then show "\<not> occurs_at pat (base @ pat) i" by (simp add: occurs_at_def)
  qed
  with Cons.IH Cons.prems(2) have "replace (base @ pat) pat rep = base @ rep" by simp
  with head show ?case by simp
qed

text \<open>For a path that ends in \<open>.ts\<close> and has no \<open>.ts\<close> before that, the extension is
  swapped and the rest of the path is kept.\<close>

lemma testFilePath_extension:
  assumes "\<forall>i<length base. \<not> occurs_at ''.ts'' (base @ ''.ts'') i"
  shows "testFilePath (base @ ''.ts'') = base @ ''.test.ts''"
  using replace_suffix[OF assms, of "''.test.ts''"] by (simp add: testFilePath_def)

lemma testFilePath_foo: "testFilePath ''src/foo.ts'' = ''src/foo.test.ts''"
  by (simp add: testFilePath_def)

text \<open>A path without \<open>.ts\<close> is its own test path.\<close>

lemma testFilePath_js: "testFilePath ''src/foo.js'' = ''src/foo.js''"
  by (simp add: testFilePath_def)

text \<open>
  Claim C2. The test file read and later overwritten is the source path with its
  \<open>.ts\<close> extension replaced by \<open>.test.ts\<close>, nothing else in the path being altered.
  The path is computed by replacing the first \<open>.ts\<close> found from the left: for
  \<open>packages/core.ts/src/index.ts\<close> the directory name is altered and the extension
  is kept, and that is the file the pipeline reads and overwrites.
\<close>

theorem testFilePath_replaces_first_occurrence:
  "testFilePath ''packages/core.ts/src/index.ts'' = ''packages/core.test.ts/src/index.ts'' \<and>
   testFilePath ''packages/core.ts/src/index.ts'' \<noteq> ''packages/core.ts/src/index.test.ts'' \<and>
   filter (\<lambda>x. x = ReadFile ''repos/widgets-u1/packages/core.test.ts/src/index.ts'' \<or>
               x = WriteFile ''repos/widgets-u1/packages/core.test.ts/src/index.ts'' ''revised'')
     (effects (handleGenerateImprovementsCron env_ok db_dotted_directory))
     = [ReadFile ''repos/widgets-u1/packages/core.test.ts/src/index.ts'',
        WriteFile ''repos/widgets-u1/packages/core.test.ts/src/index.ts'' ''revised'']"
  by (simp add: testFilePath_def scenario_defs pipeline_defs)

subsection \<open>Rows that share a path\<close>

text \<open>With unique paths, a firing that finds a queued row moves that row, and no
  other, to \<open>processing\<close>.\<close>

lemma cron_marks_one_when_paths_distinct:
  assumes "distinct (map path (files d))" and "findFirst_queued (files d) = Some file"
  shows "transitions (files d) (hd (history (handleGenerateImprovementsCron e d)))
           = [(fileId file, Queued, Processing)]"
proof -
  from assms(2) have f: "file \<in> set (files d)" and q: "status file = Queued"
    using find_in_set[of "\<lambda>f. status f = Queued" "files d" "file"]
    by (simp_all add: findFirst_queued_def)
  from transitions_update[OF assms(1) f, of Processing] q
  have "transitions (files d) (update_status (path file) Processing (files d))
          = [(fileId file, Queued, Processing)]" by simp
  moreover have "hd (history (handleGenerateImprovementsCron e d))
          = update_status (path file) Processing (files d)"
    using assms(2)
    by (simp add: handleGenerateImprovementsCron_def Let_def
          split: prod.splits promise.splits result.splits)
  ultimately show ?thesis by simp
qed

text \<open>With unique paths, the updates of a firing move the selected row forward, one
  step at a time, and touch no other row.\<close>

lemma cron_forward_when_paths_distinct:
  assumes dist: "distinct (map path (files d))"
    and sel: "findFirst_queued (files d) = Some file"
  shows "map2 transitions (files d # history (handleGenerateImprovementsCron e d))
           (history (handleGenerateImprovementsCron e d))
       \<in> {[[(fileId file, Queued, Processing)]],
          [[(fileId file, Queued, Processing)], [(fileId file, Processing, Processed)]],
          [[(fileId file, Queued, Processing)], [(fileId file, Processing, Error)]]}"
proof -
  let ?marked = "update_status (path file) Processing (files d)"
  let ?file' = "file\<lparr>status := Processing\<rparr>"
  from sel have f: "file \<in> set (files d)" and q: "status file = Queued"
    using find_in_set[of "\<lambda>f. status f = Queued" "files d" "file"]
    by (simp_all add: findFirst_queued_def)
  from transitions_update[OF dist f, of Processing] q
  have t1: "transitions (files d) ?marked = [(fileId file, Queued, Processing)]" by simp
  have dist': "distinct (map path ?marked)"
    using dist by (simp add: update_status_paths)
  have f': "?file' \<in> set ?marked"
    using f by (rule update_status_selected)
  have t2: "s \<noteq> Processing \<Longrightarrow>
      transitions ?marked (update_status (path file) s ?marked) = [(fileId file, Processing, s)]" for s
    using transitions_update[OF dist' f', of s] by simp
  obtain es r where run: "handleGenerateImprovements e (repos d) file = (es, r)"
    by (cases "handleGenerateImprovements e (repos d) file")
  show ?thesis
  proof (cases r)
    case (Rejected x)
    with sel run t1 show ?thesis
      by (simp add: handleGenerateImprovementsCron_def Let_def)
  next
    case (Resolved res)
    show ?thesis
    proof (cases res)
      case ok
      with Resolved sel run t1 t2[of Processed] show ?thesis
        by (simp add: handleGenerateImprovementsCron_def Let_def)
    next
      case (err msg)
      with Resolved sel run t1 t2[of Error] show ?thesis
        by (simp add: handleGenerateImprovementsCron_def Let_def)
    qed
  qed
qed

text \<open>
  Claim C3. On a firing with a queued row, exactly one row moves to \<open>processing\<close>;
  with none queued, no status changes (\<open>cron_none_queued\<close>). The update is keyed
  by path, not by the id of the row selected: with two repositories that each have
  a queued \<open>src/index.ts\<close>, one firing moves both rows to \<open>processing\<close>.
\<close>

theorem cron_marks_every_row_with_the_path:
  "selected (handleGenerateImprovementsCron env_ok db_two_queued)
     = Some \<lparr>fileId = 1, repoId = 1, path = ''src/index.ts'', status = Queued\<rparr> \<and>
   transitions (files db_two_queued)
     (hd (history (handleGenerateImprovementsCron env_ok db_two_queued)))
     = [(1, Queued, Processing), (2, Queued, Processing)]"
  by (simp add: scenario_defs pipeline_defs transitions_def)

text \<open>
  Claim C4. A row's status only moves forward, queued to processing to processed or
  error. With a processed row and a queued row of another repository on the same
  path, the firing that selects the queued row moves the processed row back to
  \<open>processing\<close> (and then forward again); both come from the update by path of
  claim C3.
\<close>

theorem cron_moves_processed_row_back:
  "selected (handleGenerateImprovementsCron env_ok db_processed_and_queued)
     = Some \<lparr>fileId = 3, repoId = 2, path = ''src/index.ts'', status = Queued\<rparr> \<and>
   transitions (files db_processed_and_queued)
     (hd (history (handleGenerateImprovementsCron env_ok db_processed_and_queued)))
     = [(1, Processed, Processing), (3, Queued, Processing)] \<and>
   history (handleGenerateImprovementsCron env_ok db_processed_and_queued) =
     [[\<lparr>fileId = 1, repoId = 1, path = ''src/index.ts'', status = Processing\<rparr>,
       \<lparr>fileId = 2, repoId = 1, path = ''src/util.ts'', status = Error\<rparr>,
       \<lparr>fileId = 3, repoId = 2, path = ''src/index.ts'', status = Processing\<rparr>],
      [\<lparr>fileId = 1, repoId = 1, path = ''src/index.ts'', status = Processed\<rparr>,
       \<lparr>fileId = 2, repoId = 1, path = ''src/util.ts'', status = Error\<rparr>,
       \<lparr>fileId = 3, repoId = 2, path = ''src/index.ts'', status = Processed\<rparr>]]"
  by (simp add: scenario_defs pipeline_defs transitions_def)

subsection \<open>An empty answer from the AI service\<close>

lemma checkout_is_not_commit: "checkoutCommand e n \<noteq> commitCommand e n p"
  by (simp add: checkoutCommand_def commitCommand_def)

lemma pipeline_falsy_response:
  assumes "findFirst_repo (repoId file) rs = Some repo"
    and "getRepoNameFromUrl e (url repo) = Some repoName"
    and "fs_cp e (existingPath e repoName) (newPath e repoName) = Resolved ()"
    and "execAsync e (checkoutCommand e repoName) = Resolved ()"
    and "fs_readFile e (testPath e repoName (path file)) = Resolved testFileContents"
    and "fs_readFile e (sourcePath e repoName (path file)) = Resolved fileContents"
    and "generateSuggestions e testFileContents fileContents = Resolved response"
    and "falsy_response response"
  shows "handleGenerateImprovements e rs file =
     ([LoggerLog ''Starting handleGenerateImprovements'',
       FsCp (existingPath e repoName) (newPath e repoName),
       Exec (checkoutCommand e repoName),
       ReadFile (testPath e repoName (path file)),
       ReadFile (sourcePath e repoName (path file)),
       GenerateSuggestions testFileContents fileContents],
      Resolved (err ''no response returned''))"
  using assms by (simp add: handleGenerateImprovements_def await_def Let_def)

text \<open>
  Claim C5. When the AI service returns empty or falsy content, the pipeline ends
  there with an error result: the effects of the firing are the copy, the checkout,
  the two reads and the call of the service, followed by the error log; no file is
  written, the commit and push command is not run, no pull request is submitted,
  and the selected row (with every row of its path) is persisted as \<open>error\<close>.
\<close>

theorem falsy_response_aborts:
  assumes sel: "findFirst_queued (files d) = Some file"
    and repo: "findFirst_repo (repoId file) (repos d) = Some repo"
    and name: "getRepoNameFromUrl e (url repo) = Some repoName"
    and cp: "fs_cp e (existingPath e repoName) (newPath e repoName) = Resolved ()"
    and checkout: "execAsync e (checkoutCommand e repoName) = Resolved ()"
    and read_test: "fs_readFile e (testPath e repoName (path file)) = Resolved testFileContents"
    and read_source: "fs_readFile e (sourcePath e repoName (path file)) = Resolved fileContents"
    and answer: "generateSuggestions e testFileContents fileContents = Resolved response"
    and falsy: "falsy_response response"
  shows "snd (handleGenerateImprovements e (repos d) file) = Resolved (err ''no response returned'') \<and>
    effects (handleGenerateImprovementsCron e d) =
      [LoggerLog ''Starting handleGenerateImprovements'',
       FsCp (existingPath e repoName) (newPath e repoName),
       Exec (checkoutCommand e repoName),
       ReadFile (testPath e repoName (path file)),
       ReadFile (sourcePath e repoName (path file)),
       GenerateSuggestions testFileContents fileContents,
       LoggerError ''Error generating improvements''] \<and>
    (\<forall>p c. WriteFile p c \<notin> set (effects (handleGenerateImprovementsCron e d))) \<and>
    Exec (commitCommand e repoName (path file))
      \<notin> set (effects (handleGenerateImprovementsCron e d)) \<and>
    (\<forall>p f u. SubmitPR p f u \<notin> set (effects (handleGenerateImprovementsCron e d))) \<and>
    completion (handleGenerateImprovementsCron e d) = Resolved () \<and>
    files_after d (handleGenerateImprovementsCron e d) = update_status (path file) Error (files d) \<and>
    file\<lparr>status := Error\<rparr> \<in> set (files_after d (handleGenerateImprovementsCron e d)) \<and>
    (\<forall>r \<in> set (files_after d (handleGenerateImprovementsCron e d)).
        path r = path file \<longrightarrow> status r = Error)"
proof -
  note run = pipeline_falsy_response[OF repo name cp checkout read_test read_source answer falsy]
  have eff: "effects (handleGenerateImprovementsCron e d) =
      [LoggerLog ''Starting handleGenerateImprovements'',
       FsCp (existingPath e repoName) (newPath e repoName),
       Exec (checkoutCommand e repoName),
       ReadFile (testPath e repoName (path file)),
       ReadFile (sourcePath e repoName (path file)),
       GenerateSuggestions testFileContents fileContents,
       LoggerError ''Error generating improvements'']"
    using sel run by (simp add: handleGenerateImprovementsCron_def Let_def)
  have compl: "completion (handleGenerateImprovementsCron e d) = Resolved ()"
    using sel run by (simp add: handleGenerateImprovementsCron_def Let_def)
  have after: "files_after d (handleGenerateImprovementsCron e d)
      = update_status (path file) Error (files d)"
    using cron_resolved_err[OF sel run] .
  from sel have "file \<in> set (files d)"
    using find_in_set[of "\<lambda>f. status f = Queued" "files d" "file"]
    by (simp add: findFirst_queued_def)
  then have member: "file\<lparr>status := Error\<rparr> \<in> set (update_status (path file) Error (files d))"
    by (rule update_status_selected)
  have all: "\<forall>r \<in> set (update_status (path file) Error (files d)).
      path r = path file \<longrightarrow> status r = Error"
    using update_status_path by blast
  have commit: "Exec (commitCommand e repoName (path file))
      \<notin> set (effects (handleGenerateImprovementsCron e d))"
    using checkout_is_not_commit[of e repoName "path file"] by (simp add: eff)
  show ?thesis using run eff compl after member all commit by simp
qed

theorem falsy_response_aborts_witness:
  "findFirst_queued (files db_one_queued)
     = Some \<lparr>fileId = 1, repoId = 1, path = ''src/foo.ts'', status = Queued\<rparr> \<and>
   generateSuggestions env_empty_answer ''contents'' ''contents'' = Resolved (Some []) \<and>
   falsy_response (Some []) \<and>
   effects (handleGenerateImprovementsCron env_empty_answer db_one_queued) =
      [LoggerLog ''Starting handleGenerateImprovements'',
       FsCp ''repos/widgets'' ''repos/widgets-u1'',
       Exec ''cd repos/widgets-u1 && git checkout -b enhance/tests-u1 '',
       ReadFile ''repos/widgets-u1/src/foo.test.ts'',
       ReadFile ''repos/widgets-u1/src/foo.ts'',
       GenerateSuggestions ''contents'' ''contents'',
       LoggerError ''Error generating improvements''] \<and>
   files_after db_one_queued (handleGenerateImprovementsCron env_empty_answer db_one_queued)
     = [\<lparr>fileId = 1, repoId = 1, path = ''src/foo.ts'', status = Error\<rparr>]"
proof -
  let ?file = "\<lparr>fileId = 1, repoId = 1, path = ''src/foo.ts'', status = Queued\<rparr>"
  have sel: "findFirst_queued (files db_one_queued) = Some ?file"
    by (simp add: db_one_queued_def findFirst_queued_def)
  have repo: "findFirst_repo (repoId ?file) (repos db_one_queued) = Some widgets"
    by (simp add: db_one_queued_def findFirst_repo_def widgets_def)
  have name: "getRepoNameFromUrl env_empty_answer (url widgets) = Some ''widgets''"
    by (simp add: env_empty_answer_def env_ok_def widgets_def)
  have cp: "fs_cp env_empty_answer (existingPath env_empty_answer ''widgets'')
      (newPath env_empty_answer ''widgets'') = Resolved ()"
    by (simp add: env_empty_answer_def env_ok_def)
  have checkout: "execAsync env_empty_answer (checkoutCommand env_empty_answer ''widgets'')
      = Resolved ()"
    by (simp add: env_empty_answer_def env_ok_def)
  have read_test: "fs_readFile env_empty_answer
      (testPath env_empty_answer ''widgets'' (path ?file)) = Resolved ''contents''"
    by (simp add: env_empty_answer_def env_ok_def)
  have read_source: "fs_readFile env_empty_answer
      (sourcePath env_empty_answer ''widgets'' (path ?file)) = Resolved ''contents''"
    by (simp add: env_empty_answer_def env_ok_def)
  have answer: "generateSuggestions env_empty_answer ''contents'' ''contents''
      = Resolved (Some [])"
    by (simp add: env_empty_answer_def env_ok_def)
  have falsy: "falsy_response (Some [])"
    by (simp add: falsy_response_def)
  from falsy_response_aborts[OF sel repo name cp checkout read_test read_source answer falsy]
  show ?thesis
    using sel answer falsy
    by (simp add: scenario_defs existingPath_def newPath_def checkoutCommand_def
          testPath_def sourcePath_def testFilePath_def update_status_def)
qed

section \<open>Properties of the event hub\<close>

subsection \<open>Logs and runs\<close>

lemma delays_append: "delays (xs @ ys) = delays xs @ delays ys"
  by (induction xs rule: delays.induct) auto

lemma invocations_append: "invocations (xs @ ys) = invocations xs @ invocations ys"
  by (induction xs rule: invocations.induct) auto

lemma run_append:
  "run parse beh (hs @ hs') st =
     (case run parse beh hs st of (st', acts) \<Rightarrow>
        (case run parse beh hs' st' of (st'', acts') \<Rightarrow> (st'', acts @ acts')))"
  by (induction hs arbitrary: st) (auto split: prod.splits)

subsection \<open>Delivery\<close>

lemma forEach_guarded:
  "forEach (\<lambda>l. try_catch (call_listener beh l event) (\<lambda>error. ([ConsoleError msg], Normal ()))) ls
     = (acts, c) \<Longrightarrow> c = Normal () \<and> invocations acts = map (\<lambda>l. (l, event)) ls"
proof (induction ls arbitrary: acts c)
  case Nil
  then show ?case by simp
next
  case (Cons l ls)
  then show ?case
    by (cases "beh l event")
       (auto simp: try_catch_def call_listener_def invocations_append split: prod.splits)
qed

lemma notifyListeners_all:
  "snd (notifyListeners beh event st) = Normal () \<and>
   invocations (fst (notifyListeners beh event st))
     = map (\<lambda>l. (l, event)) (listeners_of st (type event))"
proof (cases "listenersRef st (type event)")
  case None
  then show ?thesis by (simp add: notifyListeners_def listeners_of_def)
next
  case (Some ls)
  obtain acts c where r: "forEach (\<lambda>l. try_catch (call_listener beh l event)
      (\<lambda>error. ([ConsoleError ''Error in event listener''], Normal ()))) ls = (acts, c)"
    by (cases "forEach (\<lambda>l. try_catch (call_listener beh l event)
      (\<lambda>error. ([ConsoleError ''Error in event listener''], Normal ()))) ls")
  from forEach_guarded[OF r] Some r show ?thesis
    by (simp add: notifyListeners_def listeners_of_def)
qed

lemma on_message_result:
  "on_message parse beh k raw st =
     (case parse raw of
        None \<Rightarrow> (st, [ConsoleError ''Error parsing SSE event''], Normal ())
      | Some d \<Rightarrow>
          (st\<lparr>lastEvent := Some \<lparr>type = k, data = d\<rparr>\<rparr>,
           fst (notifyListeners beh \<lparr>type = k, data = d\<rparr>
                  (st\<lparr>lastEvent := Some \<lparr>type = k, data = d\<rparr>\<rparr>)),
           Normal ()))"
proof (cases "parse raw")
  case None
  then show ?thesis by (simp add: on_message_def)
next
  case (Some d)
  let ?e = "\<lparr>type = k, data = d\<rparr>"
  let ?st = "st\<lparr>lastEvent := Some ?e\<rparr>"
  from notifyListeners_all[of beh ?e ?st]
  have "snd (notifyListeners beh ?e ?st) = Normal ()" by simp
  then obtain acts where "notifyListeners beh ?e ?st = (acts, Normal ())"
    by (cases "notifyListeners beh ?e ?st") simp
  with Some show ?thesis by (simp add: on_message_def Let_def)
qed

lemma step_message_state:
  "fst (step parse beh (Message k raw) st) =
     (case parse raw of None \<Rightarrow> st | Some d \<Rightarrow> st\<lparr>lastEvent := Some \<lparr>type = k, data = d\<rparr>\<rparr>)"
  by (simp add: on_message_result split: option.splits)

lemma step_message_invocations:
  "invocations (snd (step parse beh (Message k raw) st)) =
     (case parse raw of None \<Rightarrow> []
      | Some d \<Rightarrow> map (\<lambda>l. (l, \<lparr>type = k, data = d\<rparr>)) (listeners_of st k))"
proof (cases "parse raw")
  case None
  then show ?thesis by (simp add: on_message_result)
next
  case (Some d)
  from notifyListeners_all[of beh "\<lparr>type = k, data = d\<rparr>"
      "st\<lparr>lastEvent := Some \<lparr>type = k, data = d\<rparr>\<rparr>"]
  show ?thesis using Some by (simp add: on_message_result listeners_of_def)
qed

lemma listeners_of_step_message:
  "listeners_of (fst (step parse beh (Message k raw) st)) = listeners_of st"
  using step_message_state[of parse beh k raw st]
  by (cases "parse raw") (simp_all add: listeners_of_def fun_eq_iff del: step.simps)

lemma run_messages_invocations:
  "invocations (snd (run parse beh (map (\<lambda>(k, raw). Message k raw) msgs) st)) =
     concat (map (\<lambda>(k, raw). case parse raw of None \<Rightarrow> []
        | Some d \<Rightarrow> map (\<lambda>l. (l, \<lparr>type = k, data = d\<rparr>)) (listeners_of st k)) msgs)"
proof (induction msgs arbitrary: st)
  case Nil
  then show ?case by simp
next
  case (Cons m msgs)
  obtain k raw where m: "m = (k, raw)" by (cases m)
  obtain st1 acts1 where s1: "step parse beh (Message k raw) st = (st1, acts1)"
    by (cases "step parse beh (Message k raw) st")
  obtain st2 acts2
    where s2: "run parse beh (map (\<lambda>(k, raw). Message k raw) msgs) st1 = (st2, acts2)"
    by (cases "run parse beh (map (\<lambda>(k, raw). Message k raw) msgs) st1")
  have l: "listeners_of st1 = listeners_of st"
    using listeners_of_step_message[of parse beh k raw st] s1 by simp
  have i1: "invocations acts1 = (case parse raw of None \<Rightarrow> []
      | Some d \<Rightarrow> map (\<lambda>l. (l, \<lparr>type = k, data = d\<rparr>)) (listeners_of st k))"
    using step_message_invocations[of parse beh k raw st] s1 by simp
  have i2: "invocations acts2 = concat (map (\<lambda>(k, raw). case parse raw of None \<Rightarrow> []
        | Some d \<Rightarrow> map (\<lambda>l. (l, \<lparr>type = k, data = d\<rparr>)) (listeners_of st k)) msgs)"
    using Cons.IH[of st1] s2 unfolding l by simp
  show ?case using m s1 s2 i1 i2 by (simp add: invocations_append del: step.simps)
qed

subsection \<open>Reconnection\<close>

lemma forEach_guarded_delays:
  "forEach (\<lambda>l. try_catch (call_listener beh l event) (\<lambda>error. ([ConsoleError msg], Normal ()))) ls
     = (acts, c) \<Longrightarrow> delays acts = []"
proof (induction ls arbitrary: acts c)
  case Nil
  then show ?case by simp
next
  case (Cons l ls)
  then show ?case
    by (cases "beh l event")
       (auto simp: try_catch_def call_listener_def delays_append split: prod.splits)
qed

lemma notifyListeners_delays: "delays (fst (notifyListeners beh event st)) = []"
proof (cases "listenersRef st (type event)")
  case None
  then show ?thesis by (simp add: notifyListeners_def)
next
  case (Some ls)
  obtain acts c where r: "forEach (\<lambda>l. try_catch (call_listener beh l event)
      (\<lambda>error. ([ConsoleError ''Error in event listener''], Normal ()))) ls = (acts, c)"
    by (cases "forEach (\<lambda>l. try_catch (call_listener beh l event)
      (\<lambda>error. ([ConsoleError ''Error in event listener''], Normal ()))) ls")
  from forEach_guarded_delays[OF r] Some r show ?thesis
    by (simp add: notifyListeners_def)
qed

text \<open>What one happening other than an open does to the timers and to the counter.\<close>

lemma step_delays:
  assumes "h \<noteq> Open"
  shows "delays (snd (step parse beh h st))
           = (if h = TransportError then [backoffDelay (reconnectAttemptsRef st)] else []) \<and>
         reconnectAttemptsRef (fst (step parse beh h st))
           = reconnectAttemptsRef st + (if h = TransportError then 1 else 0)"
proof (cases h)
  case Open
  with assms show ?thesis by simp
next
  case TransportError
  then show ?thesis by (simp add: onerror_def Let_def)
next
  case (TimerFired made)
  then show ?thesis by (cases made) (simp_all add: connect_def Let_def split: option.splits)
next
  case (Message k raw)
  then show ?thesis
    by (cases "parse raw") (simp_all add: on_message_result notifyListeners_delays)
qed

lemma run_delays:
  assumes "Open \<notin> set hs"
  shows "delays (snd (run parse beh hs st))
           = map (\<lambda>n. backoffDelay (reconnectAttemptsRef st + n))
               [0..<count_list hs TransportError]"
  using assms
proof (induction hs arbitrary: st)
  case Nil
  then show ?case by simp
next
  case (Cons h hs)
  obtain st1 acts1 where s1: "step parse beh h st = (st1, acts1)"
    by (cases "step parse beh h st")
  obtain st2 acts2 where s2: "run parse beh hs st1 = (st2, acts2)"
    by (cases "run parse beh hs st1")
  from Cons.prems have h: "h \<noteq> Open" and hs: "Open \<notin> set hs" by auto
  from step_delays[OF h, of parse beh st] s1
  have d1: "delays acts1 = (if h = TransportError then [backoffDelay (reconnectAttemptsRef st)] else [])"
    and a1: "reconnectAttemptsRef st1
        = reconnectAttemptsRef st + (if h = TransportError then 1 else 0)"
    by simp_all
  from Cons.IH[OF hs, of st1] s2
  have d2: "delays acts2 = map (\<lambda>n. backoffDelay (reconnectAttemptsRef st1 + n))
      [0..<count_list hs TransportError]" by simp
  show ?case
  proof (cases "h = TransportError")
    case True
    with d1 d2 a1 s1 s2 show ?thesis
      by (simp add: delays_append map_upt_Suc del: upt_Suc step.simps)
  next
    case False
    with d1 d2 a1 s1 s2 show ?thesis
      by (simp add: delays_append del: step.simps)
  qed
qed

lemma first_seven_delays:
  "map (\<lambda>n. min (1000 * 2 ^ n) 30000) [0..<7] = [1000, 2000, 4000, 8000, 16000, 30000, 30000::nat]"
  by (simp add: upt_rec)

text \<open>
  Claim C6. A successful open sets the attempt counter to 0. Over whatever happens
  from there without another open (failures, timers firing and reconnecting, events
  arriving), the \<open>n\<close>-th failure, counted from 0, sets a timer of
  \<open>min(1000 * 2^n, 30000)\<close> milliseconds: 1000, 2000, 4000, 8000, 16000, 30000,
  30000, and so on.
\<close>

theorem reconnect_delays:
  assumes "Open \<notin> set hs"
  shows "delays (snd (run parse beh hs (fst (step parse beh Open st))))
           = map (\<lambda>n. min (1000 * 2 ^ n) 30000) [0..<count_list hs TransportError] \<and>
         map (\<lambda>n. min (1000 * 2 ^ n) 30000) [0..<7]
           = [1000, 2000, 4000, 8000, 16000, 30000, 30000::nat] \<and>
         reconnectAttemptsRef (fst (step parse beh Open st)) = 0"
proof -
  have zero: "reconnectAttemptsRef (fst (step parse beh Open st)) = 0"
    by (simp add: onopen_def)
  from run_delays[OF assms, of parse beh "fst (step parse beh Open st)"] zero
  have "delays (snd (run parse beh hs (fst (step parse beh Open st))))
      = map (\<lambda>n. min (1000 * 2 ^ n) 30000) [0..<count_list hs TransportError]"
    by (simp add: backoffDelay_def del: step.simps)
  with zero first_seven_delays show ?thesis by simp
qed

theorem reconnect_delays_witness:
  "Open \<notin> set (concat (map failed_attempt [1, 2, 3, 4, 5, 6, 7])) \<and>
   delays (snd (run parse_sample second_throws (concat (map failed_attempt [1, 2, 3, 4, 5, 6, 7]))
        (fst (step parse_sample second_throws Open
           (fst (run parse_sample second_throws (failed_attempt 9) hub_initial))))))
     = [1000, 2000, 4000, 8000, 16000, 30000, 30000] \<and>
   reconnectAttemptsRef (fst (run parse_sample second_throws (failed_attempt 9) hub_initial)) = 1 \<and>
   reconnectAttemptsRef (fst (step parse_sample second_throws Open
      (fst (run parse_sample second_throws (failed_attempt 9) hub_initial)))) = 0"
proof -
  have no_open: "Open \<notin> set (concat (map failed_attempt [1, 2, 3, 4, 5, 6, 7]))"
    by (simp add: failed_attempt_def)
  have seven: "count_list (concat (map failed_attempt [1, 2, 3, 4, 5, 6, 7])) TransportError = 7"
    by (simp add: failed_attempt_def)
  have before: "reconnectAttemptsRef
      (fst (run parse_sample second_throws (failed_attempt 9) hub_initial)) = 1"
    by (simp add: failed_attempt_def onerror_def connect_def hub_initial_def Let_def)
  from reconnect_delays[OF no_open, of parse_sample second_throws
      "fst (run parse_sample second_throws (failed_attempt 9) hub_initial)"]
  show ?thesis
    using no_open seven before by (simp del: step.simps run.simps upt_Suc)
qed

subsection \<open>Malformed events and throwing listeners\<close>

lemmas hub_scenario_defs = hub_subscribed_def hub_initial_def addEventListener_def
  set_add_def listeners_of_def parse_sample_def second_throws_def

text \<open>
  Claim C7. For every event type, when the text of an incoming event does not parse,
  the handler returns normally having done nothing but log: no listener is called,
  and the state (\<open>lastEvent\<close>, the connection fields, the registry) is what it was.
\<close>

theorem malformed_payload_dropped:
  assumes "parse raw = None"
  shows "on_message parse beh eventType raw st
           = (st, [ConsoleError ''Error parsing SSE event''], Normal ()) \<and>
         fst (step parse beh (Message eventType raw) st) = st \<and>
         invocations (snd (step parse beh (Message eventType raw) st)) = []"
  using assms by (simp add: on_message_def)

theorem malformed_payload_dropped_witness:
  "parse_sample ''{oops'' = None \<and>
   listeners_of hub_subscribed task_progress = [1, 2, 3] \<and>
   on_message parse_sample second_throws task_progress ''{oops'' hub_subscribed
     = (hub_subscribed, [ConsoleError ''Error parsing SSE event''], Normal ()) \<and>
   fst (step parse_sample second_throws (Message task_progress ''{oops'') hub_subscribed)
     = hub_subscribed \<and>
   invocations (snd (step parse_sample second_throws (Message task_progress ''{oops'')
     hub_subscribed)) = []"
proof -
  have bad: "parse_sample ''{oops'' = None"
    by (simp add: parse_sample_def)
  have ls: "listeners_of hub_subscribed task_progress = [1, 2, 3]"
    by (simp add: hub_scenario_defs)
  from malformed_payload_dropped[where parse = parse_sample and raw = "''{oops''"
      and beh = second_throws and eventType = task_progress and st = hub_subscribed, OF bad]
    bad ls
  show ?thesis by (simp del: step.simps)
qed

text \<open>
  Claim C8. Whatever the listeners do when called, one of them throwing included:
  delivery of an event returns normally and calls every listener registered for the
  event's type, once each and in registration order, and no listener of another
  type; the state after an event does not depend on what the listeners did (only
  \<open>lastEvent\<close> is set, the connection fields and the registry are untouched); and
  over any sequence of events each event is delivered to all listeners of its type.
\<close>

theorem throwing_listener_isolated:
  "snd (notifyListeners beh event st) = Normal () \<and>
   invocations (fst (notifyListeners beh event st))
     = map (\<lambda>l. (l, event)) (listeners_of st (type event)) \<and>
   fst (step parse beh (Message k raw) st)
     = (case parse raw of None \<Rightarrow> st
        | Some d \<Rightarrow> st\<lparr>lastEvent := Some \<lparr>type = k, data = d\<rparr>\<rparr>) \<and>
   invocations (snd (run parse beh (map (\<lambda>(k, raw). Message k raw) msgs) st))
     = concat (map (\<lambda>(k, raw). case parse raw of None \<Rightarrow> []
         | Some d \<Rightarrow> map (\<lambda>l. (l, \<lparr>type = k, data = d\<rparr>)) (listeners_of st k)) msgs)"
  using notifyListeners_all[of beh event st] step_message_state[of parse beh k raw st]
    run_messages_invocations[of parse beh msgs st]
  by (simp del: step.simps)

theorem throwing_listener_isolated_witness:
  "second_throws 2 \<lparr>type = task_progress, data = JObj []\<rparr> = Throw ''boom'' \<and>
   listeners_of hub_subscribed task_progress = [1, 2, 3] \<and>
   listeners_of hub_subscribed heartbeat = [4] \<and>
   invocations (fst (notifyListeners second_throws \<lparr>type = task_progress, data = JObj []\<rparr>
      hub_subscribed))
     = [(1, \<lparr>type = task_progress, data = JObj []\<rparr>),
        (2, \<lparr>type = task_progress, data = JObj []\<rparr>),
        (3, \<lparr>type = task_progress, data = JObj []\<rparr>)] \<and>
   fst (step parse_sample second_throws (Message task_progress ''{}'') hub_subscribed)
     = hub_subscribed\<lparr>lastEvent := Some \<lparr>type = task_progress, data = JObj []\<rparr>\<rparr> \<and>
   invocations (snd (run parse_sample second_throws
      (map (\<lambda>(k, raw). Message k raw)
         [(task_progress, ''{}''), (heartbeat, ''null''), (task_progress, ''{}'')])
      hub_subscribed))
     = [(1, \<lparr>type = task_progress, data = JObj []\<rparr>),
        (2, \<lparr>type = task_progress, data = JObj []\<rparr>),
        (3, \<lparr>type = task_progress, data = JObj []\<rparr>),
        (4, \<lparr>type = heartbeat, data = JNull\<rparr>),
        (1, \<lparr>type = task_progress, data = JObj []\<rparr>),
        (2, \<lparr>type = task_progress, data = JObj []\<rparr>),
        (3, \<lparr>type = task_progress, data = JObj []\<rparr>)]"
proof -
  have thrower: "second_throws 2 \<lparr>type = task_progress, data = JObj []\<rparr> = Throw ''boom''"
    by (simp add: second_throws_def)
  have progress: "listeners_of hub_subscribed task_progress = [1, 2, 3]"
    by (simp add: hub_scenario_defs)
  have beat: "listeners_of hub_subscribed heartbeat = [4]"
    by (simp add: hub_scenario_defs)
  have parsed: "parse_sample ''{}'' = Some (JObj [])" "parse_sample ''null'' = Some JNull"
    by (simp_all add: parse_sample_def)
  from throwing_listener_isolated[of second_throws "\<lparr>type = task_progress, data = JObj []\<rparr>"
      hub_subscribed parse_sample task_progress "''{}''"
      "[(task_progress, ''{}''), (heartbeat, ''null''), (task_progress, ''{}'')]"]
  show ?thesis
    using thrower progress beat parsed by (simp del: step.simps run.simps)
qed

section \<open>Properties of the type guards\<close>

subsection \<open>When the operators hold\<close>

lemma holds_js_and: "holds (js_and a b) = (holds a \<and> holds b)"
  by (auto simp: holds_def js_and_def split: option.splits)

lemma holds_typeof_string: "holds (typeof_is r ''string'') = (\<exists>v. r = Some v \<and> is_string v)"
proof (cases r)
  case None
  then show ?thesis by (simp add: holds_def typeof_is_def)
next
  case (Some v)
  then show ?thesis by (cases v) (simp_all add: holds_def typeof_is_def)
qed

lemma holds_strict_eq_str: "holds (strict_eq_str r s) = (r = Some (JStr s))"
  by (cases r) (simp_all add: holds_def strict_eq_str_def)

lemma holds_not_undefined: "holds (not_undefined r) = (\<exists>v. r = Some v \<and> v \<noteq> JUndefined)"
  by (cases r) (simp_all add: holds_def not_undefined_def)

lemma property_JObj: "property (JObj kvs) name = Some (field kvs name)"
  by (simp add: field_def)

subsection \<open>The shapes checked\<close>

lemma isTaskProgressEvent_shape: "holds (isTaskProgressEvent x) = progress_shape x"
  by (cases x)
     (simp_all add: isTaskProgressEvent_def holds_js_and holds_typeof_string
        holds_not_undefined property_JObj del: property.simps(3),
      simp_all add: holds_def)

lemma isTaskStartedEvent_shape:
  "holds (isTaskStartedEvent (JObj kvs)) =
     (is_string (field kvs ''taskId'') \<and> is_string (field kvs ''repoId'') \<and>
      is_string (field kvs ''filePath'') \<and> is_string (field kvs ''repoName''))"
  by (simp add: isTaskStartedEvent_def holds_js_and holds_typeof_string property_JObj
        del: property.simps(3), simp add: holds_def)

lemma opt_chain_metadata_error:
  "progress_shape x \<Longrightarrow> opt_chain (property x ''metadata'') ''error'' = Some (metadata_error x)"
proof (cases x)
  case (JObj kvs)
  then show ?thesis
    by (cases "field kvs ''metadata''")
       (simp_all add: opt_chain_def property_JObj del: property.simps(3))
qed simp_all

lemma isTaskErrorEvent_holds:
  "holds (isTaskErrorEvent x) =
     (progress_shape x \<and> property x ''eventType'' = Some (JStr ''error'') \<and>
      metadata_error x \<noteq> JUndefined)"
proof (cases "progress_shape x")
  case True
  then show ?thesis
    by (simp add: isTaskErrorEvent_def holds_js_and holds_strict_eq_str holds_not_undefined
        opt_chain_metadata_error isTaskProgressEvent_shape)
next
  case False
  then show ?thesis
    by (simp add: isTaskErrorEvent_def holds_js_and isTaskProgressEvent_shape)
qed

lemma isTaskCompletedEvent_holds:
  "holds (isTaskCompletedEvent x) =
     (progress_shape x \<and> property x ''eventType'' = Some (JStr ''complete''))"
  by (simp add: isTaskCompletedEvent_def holds_js_and holds_strict_eq_str
      isTaskProgressEvent_shape)

text \<open>The guards never throw: a property is read only after the payload was found
  truthy.\<close>

lemma guards_return:
  "isTaskProgressEvent x \<noteq> None \<and> isTaskStartedEvent x \<noteq> None \<and>
   isTaskCompletedEvent x \<noteq> None \<and> isTaskErrorEvent x \<noteq> None \<and> isHeartbeatEvent x \<noteq> None"
proof (cases x)
  case (JObj kvs)
  then show ?thesis
    by (cases "field kvs ''metadata''")
       (simp_all add: isTaskProgressEvent_def isTaskStartedEvent_def isTaskCompletedEvent_def
          isTaskErrorEvent_def isHeartbeatEvent_def js_and_def typeof_is_def strict_eq_str_def
          not_undefined_def opt_chain_def property_JObj del: property.simps(3))
qed (simp_all add: isTaskProgressEvent_def isTaskStartedEvent_def isTaskCompletedEvent_def
       isTaskErrorEvent_def isHeartbeatEvent_def js_and_def typeof_is_def strict_eq_str_def
       not_undefined_def opt_chain_def)

lemmas payload_defs = progress_payload_def started_payload_def completed_payload_def
  error_payload_def heartbeat_payload_def malformed_payload_def field_def optional_def
  TaskEventType_def

subsection \<open>Well-formed payloads\<close>

lemma wf_progress_shape: "wf_TaskProgressEvent x \<Longrightarrow> progress_shape x"
proof (cases x)
  case (JObj kvs)
  assume "wf_TaskProgressEvent x"
  with JObj show ?thesis by (cases "field kvs ''eventType''") simp_all
qed simp_all

text \<open>The guards accept more than the interfaces declare.\<close>

lemma malformed_accepted:
  "holds (isTaskProgressEvent malformed_payload) \<and> \<not> wf_TaskProgressEvent malformed_payload"
  by (simp add: isTaskProgressEvent_shape payload_defs)

lemma wf_completed_accepted: "wf_TaskCompletedEvent x \<Longrightarrow> holds (isTaskCompletedEvent x)"
  by (simp add: wf_TaskCompletedEvent_def isTaskCompletedEvent_holds wf_progress_shape)

lemma wf_error_accepted:
  assumes wf: "wf_TaskErrorEvent x"
  shows "holds (isTaskErrorEvent x)"
proof -
  from wf have shape: "progress_shape x"
    by (simp add: wf_TaskErrorEvent_def wf_progress_shape)
  from wf obtain kvs where x: "x = JObj kvs"
    by (cases x) (simp_all add: wf_TaskErrorEvent_def)
  from wf x have "is_error_metadata (field kvs ''metadata'')"
    by (simp add: wf_TaskErrorEvent_def property_JObj del: property.simps(3))
  then obtain m where m: "field kvs ''metadata'' = JObj m" and e: "is_string (field m ''error'')"
    by (cases "field kvs ''metadata''") simp_all
  from e have "field m ''error'' \<noteq> JUndefined"
    by (cases "field m ''error''") simp_all
  with x m have "metadata_error x \<noteq> JUndefined" by simp
  with wf shape show ?thesis
    by (simp add: wf_TaskErrorEvent_def isTaskErrorEvent_holds)
qed

lemmas odd_payload_defs = complete_without_timestamp_def error_null_payload_def field_def
  optional_def TaskEventType_def

text \<open>
  Claim C9, as stated: \<open>isTaskCompletedEvent\<close> holds of a payload if and only if the
  payload structurally matches a progress payload and its event type is \<open>'complete'\<close>,
  and \<open>isTaskErrorEvent\<close> if and only if, with event type \<open>'error'\<close>, it also has a
  populated \<open>metadata.error\<close>. With a progress payload as the interfaces declare it
  (a timestamp required, the error a string) the guards accept more than that: a
  \<open>'complete'\<close> payload without timestamp is accepted by \<open>isTaskCompletedEvent\<close>, and
  an \<open>'error'\<close> payload whose \<open>metadata.error\<close> is \<open>null\<close> by \<open>isTaskErrorEvent\<close>.
\<close>

theorem completed_and_error_guards_counterexample:
  "holds (isTaskCompletedEvent complete_without_timestamp) \<noteq>
     (wf_TaskProgressEvent complete_without_timestamp \<and>
      property complete_without_timestamp ''eventType'' = Some (JStr ''complete'')) \<and>
   holds (isTaskErrorEvent error_null_payload) \<noteq>
     (wf_TaskProgressEvent error_null_payload \<and>
      property error_null_payload ''eventType'' = Some (JStr ''error'') \<and>
      is_string (metadata_error error_null_payload)) \<and>
   holds (isTaskCompletedEvent complete_without_timestamp) \<and>
   property complete_without_timestamp ''eventType'' = Some (JStr ''complete'') \<and>
   \<not> wf_TaskProgressEvent complete_without_timestamp \<and>
   holds (isTaskErrorEvent error_null_payload) \<and>
   property error_null_payload ''eventType'' = Some (JStr ''error'') \<and>
   metadata_error error_null_payload = JNull \<and>
   \<not> wf_TaskErrorEvent error_null_payload"
  by (simp add: isTaskCompletedEvent_holds isTaskErrorEvent_holds wf_TaskErrorEvent_def
      odd_payload_defs)

text \<open>
  Claim C9, amended. \<open>isTaskCompletedEvent\<close> holds of a payload exactly when the
  payload is an object whose \<open>taskId\<close>, \<open>repoId\<close>, \<open>filePath\<close>, \<open>repoName\<close> and \<open>message\<close>
  are strings and whose \<open>eventType\<close> is \<open>'complete'\<close>; \<open>isTaskErrorEvent\<close> holds
  exactly when the payload is such an object with \<open>eventType\<close> \<open>'error'\<close> and a
  \<open>metadata.error\<close> that is not \<open>undefined\<close>. Neither looks at the timestamp, at the
  rest of the metadata or at the type of \<open>metadata.error\<close>. Every completed payload
  and every error payload that is well formed is accepted by its guard.
\<close>

theorem completed_and_error_guards:
  "holds (isTaskCompletedEvent x) =
     (progress_shape x \<and> property x ''eventType'' = Some (JStr ''complete'')) \<and>
   holds (isTaskErrorEvent x) =
     (progress_shape x \<and> property x ''eventType'' = Some (JStr ''error'') \<and>
      metadata_error x \<noteq> JUndefined) \<and>
   (wf_TaskCompletedEvent x \<longrightarrow> holds (isTaskCompletedEvent x)) \<and>
   (wf_TaskErrorEvent x \<longrightarrow> holds (isTaskErrorEvent x))"
  using wf_completed_accepted[of x] wf_error_accepted[of x]
  by (simp add: isTaskCompletedEvent_holds isTaskErrorEvent_holds)

theorem completed_and_error_guards_witness:
  "wf_TaskCompletedEvent completed_payload \<and>
   holds (isTaskCompletedEvent completed_payload) \<and>
   progress_shape completed_payload \<and>
   \<not> holds (isTaskErrorEvent completed_payload) \<and>
   wf_TaskErrorEvent error_payload \<and>
   holds (isTaskErrorEvent error_payload) \<and>
   metadata_error error_payload = JStr ''no response returned'' \<and>
   \<not> holds (isTaskCompletedEvent error_payload) \<and>
   \<not> holds (isTaskCompletedEvent progress_payload) \<and>
   \<not> holds (isTaskErrorEvent JNull)"
proof -
  have completed: "wf_TaskCompletedEvent completed_payload"
    by (simp add: wf_TaskCompletedEvent_def payload_defs)
  have error: "wf_TaskErrorEvent error_payload"
    by (simp add: wf_TaskErrorEvent_def payload_defs)
  show ?thesis
    using completed error
      completed_and_error_guards[of completed_payload]
      completed_and_error_guards[of error_payload]
      completed_and_error_guards[of progress_payload]
      completed_and_error_guards[of JNull]
    by (simp add: payload_defs)
qed

text \<open>
  Claim C10. A payload that is well formed for one of the known shapes (progress,
  started, completed, error, heartbeat) is accepted by the guard of that shape: the
  guards may accept more, they do not reject a well-formed payload.
\<close>

theorem guards_accept_well_formed:
  "(wf_TaskProgressEvent x \<longrightarrow> holds (isTaskProgressEvent x)) \<and>
   (wf_TaskStartedEvent x \<longrightarrow> holds (isTaskStartedEvent x)) \<and>
   (wf_TaskCompletedEvent x \<longrightarrow> holds (isTaskCompletedEvent x)) \<and>
   (wf_TaskErrorEvent x \<longrightarrow> holds (isTaskErrorEvent x)) \<and>
   (wf_HeartbeatEvent x \<longrightarrow> holds (isHeartbeatEvent x))"
proof (intro conjI impI)
  assume "wf_TaskProgressEvent x"
  then show "holds (isTaskProgressEvent x)"
    by (simp add: isTaskProgressEvent_shape wf_progress_shape)
next
  assume "wf_TaskStartedEvent x"
  then show "holds (isTaskStartedEvent x)"
    by (cases x) (simp_all add: isTaskStartedEvent_shape)
next
  assume "wf_TaskCompletedEvent x"
  then show "holds (isTaskCompletedEvent x)"
    by (simp add: wf_TaskCompletedEvent_def isTaskCompletedEvent_holds wf_progress_shape)
next
  assume wf: "wf_TaskErrorEvent x"
  then have shape: "progress_shape x"
    by (simp add: wf_TaskErrorEvent_def wf_progress_shape)
  from wf obtain kvs where x: "x = JObj kvs"
    by (cases x) (simp_all add: wf_TaskErrorEvent_def)
  from wf x have "is_error_metadata (field kvs ''metadata'')"
    by (simp add: wf_TaskErrorEvent_def property_JObj del: property.simps(3))
  then obtain m where m: "field kvs ''metadata'' = JObj m" and e: "is_string (field m ''error'')"
    by (cases "field kvs ''metadata''") simp_all
  from e have "field m ''error'' \<noteq> JUndefined"
    by (cases "field m ''error''") simp_all
  with x m have "metadata_error x \<noteq> JUndefined" by simp
  with wf shape show "holds (isTaskErrorEvent x)"
    by (simp add: wf_TaskErrorEvent_def isTaskErrorEvent_holds)
next
  assume "wf_HeartbeatEvent x"
  then obtain kvs where x: "x = JObj kvs" and d: "is_Date (field kvs ''timestamp'')"
    by (cases x) simp_all
  from d have "truthy (field kvs ''timestamp'')"
    by (cases "field kvs ''timestamp''") simp_all
  with x show "holds (isHeartbeatEvent x)"
    by (simp add: isHeartbeatEvent_def js_and_def holds_def property_JObj
          del: property.simps(3))
qed

theorem guards_accept_well_formed_witness:
  "wf_TaskProgressEvent progress_payload \<and> holds (isTaskProgressEvent progress_payload) \<and>
   wf_TaskStartedEvent started_payload \<and> holds (isTaskStartedEvent started_payload) \<and>
   wf_TaskCompletedEvent completed_payload \<and> holds (isTaskCompletedEvent completed_payload) \<and>
   wf_TaskErrorEvent error_payload \<and> holds (isTaskErrorEvent error_payload) \<and>
   wf_HeartbeatEvent heartbeat_payload \<and> holds (isHeartbeatEvent heartbeat_payload)"
proof -
  have 1: "wf_TaskProgressEvent progress_payload"
    by (simp add: payload_defs)
  have 2: "wf_TaskStartedEvent started_payload"
    by (simp add: payload_defs)
  have 3: "wf_TaskCompletedEvent completed_payload"
    by (simp add: wf_TaskCompletedEvent_def payload_defs)
  have 4: "wf_TaskErrorEvent error_payload"
    by (simp add: wf_TaskErrorEvent_def payload_defs)
  have 5: "wf_HeartbeatEvent heartbeat_payload"
    by (simp add: payload_defs)
  show ?thesis
    using 1 2 3 4 5 guards_accept_well_formed[of progress_payload]
      guards_accept_well_formed[of started_payload]
      guards_accept_well_formed[of completed_payload]
      guards_accept_well_formed[of error_payload]
      guards_accept_well_formed[of heartbeat_payload]
    by simp
qed


end
